theory Spec2Isabelle
  imports Main "HOL-Library.Word" "HOL-Library.Sublist"
begin

unbundle bit_operations_syntax

section \<open>The operating system as seen by dnsmng\<close>

text \<open>
  dnsmng is a Go program that talks to the file system through \<^verbatim>\<open>os.ReadFile\<close>,
  \<^verbatim>\<open>os.WriteFile\<close> and \<^verbatim>\<open>os.MkdirAll\<close>, and to the user through \<^verbatim>\<open>log\<close> and
  \<^verbatim>\<open>fmt.Printf\<close>. The model threads an explicit \<open>world\<close> through every call.

  Whether a system call fails is decided by the environment (permissions, a full disk, a
  missing directory). The world carries one answer per path for each kind of call
  (\<open>on_read\<close>, \<open>on_write\<close>, \<open>on_mkdir\<close>); the theorems hold for every choice of these
  answers. \<open>files\<close> holds the content of every file that exists and \<open>dirs\<close> the
  directories that exist. Every call that has an effect is appended to \<open>trace\<close>, in
  program order, so that "performs no write" and "exactly one write" can be stated.
\<close>

datatype error = Error string

fun error_msg :: "error \<Rightarrow> string" where
  "error_msg (Error s) = s"

text \<open>
  \<^verbatim>\<open>os.WriteFile\<close> opens the file with \<^verbatim>\<open>O_WRONLY|O_CREATE|O_TRUNC\<close>, writes the data and
  closes the file. It can fail before the file is touched (\<open>OpenFails\<close>) or after the
  truncation, with only the first \<open>n\<close> bytes written (\<open>WriteFails\<close>).
\<close>

datatype write_outcome = WriteOk | OpenFails error | WriteFails error nat

datatype io_event =
    WriteFileCall string string nat
  | MkdirAllCall string nat
  | LogLine string
  | StdoutLine string

record world =
  files :: "string \<rightharpoonup> string"
  dirs :: "string set"
  on_read :: "string \<Rightarrow> error option"
  on_write :: "string \<Rightarrow> write_outcome"
  on_mkdir :: "string \<Rightarrow> error option"
  trace :: "io_event list"

definition emit :: "io_event \<Rightarrow> world \<Rightarrow> world" where
  "emit e w = w\<lparr>trace := trace w @ [e]\<rparr>"

definition os_ReadFile :: "string \<Rightarrow> world \<Rightarrow> error + string" where
  "os_ReadFile name w =
     (case on_read w name of
        Some e \<Rightarrow> Inl e
      | None \<Rightarrow>
          (case files w name of
             None \<Rightarrow> Inl (Error (''open '' @ name @ '': no such file or directory''))
           | Some data \<Rightarrow> Inr data))"

definition os_WriteFile :: "string \<Rightarrow> string \<Rightarrow> nat \<Rightarrow> world \<Rightarrow> error option \<times> world" where
  "os_WriteFile name data perm w =
     (let w1 = emit (WriteFileCall name data perm) w in
      case on_write w name of
        WriteOk \<Rightarrow> (None, w1\<lparr>files := (files w1)(name \<mapsto> data)\<rparr>)
      | OpenFails e \<Rightarrow> (Some e, w1)
      | WriteFails e n \<Rightarrow> (Some e, w1\<lparr>files := (files w1)(name \<mapsto> take n data)\<rparr>))"

text \<open>
  \<^verbatim>\<open>os.MkdirAll\<close> creates the directory and every missing parent. \<open>dir_chain p\<close> lists
  \<open>p\<close> and its parents below the root, for a slash-separated absolute path.
\<close>

definition dir_chain :: "string \<Rightarrow> string list" where
  "dir_chain p = [take i p. i \<leftarrow> [1..<length p], p ! i = CHR ''/''] @ [p]"

definition os_MkdirAll :: "string \<Rightarrow> nat \<Rightarrow> world \<Rightarrow> error option \<times> world" where
  "os_MkdirAll path perm w =
     (let w1 = emit (MkdirAllCall path perm) w in
      case on_mkdir w path of
        Some e \<Rightarrow> (Some e, w1)
      | None \<Rightarrow> (None, w1\<lparr>dirs := dirs w1 \<union> set (dir_chain path)\<rparr>))"

text \<open>
  \<^verbatim>\<open>filepath.Dir\<close>: everything before the last separator; \<^verbatim>\<open>/\<close> for a file directly under
  the root and \<^verbatim>\<open>.\<close> for a path without separator. (The library also cleans the result;
  the program applies it to one constant path, which is clean already.)
\<close>

definition filepath_Dir :: "string \<Rightarrow> string" where
  "filepath_Dir p =
     (let d = rev (drop 1 (dropWhile (\<lambda>c. c \<noteq> CHR ''/'') (rev p))) in
      if d \<noteq> [] then d
      else if p \<noteq> [] \<and> hd p = CHR ''/'' then ''/'' else ''.'')"

definition log_Println :: "string \<Rightarrow> world \<Rightarrow> world" where
  "log_Println s w = emit (LogLine (s @ ''\<newline>'')) w"

definition log_Printf :: "string \<Rightarrow> world \<Rightarrow> world" where
  "log_Printf s w = emit (LogLine s) w"

definition fmt_Printf :: "string \<Rightarrow> world \<Rightarrow> world" where
  "fmt_Printf s w = emit (StdoutLine s) w"

section \<open>Configuration and constants\<close>

text \<open>
  \<^verbatim>\<open>type Config struct { DNS map[string][]string }\<close>. A slice is a list (the nil slice is
  the empty list); a Go map is a partial function, and the two-valued lookup
  \<^verbatim>\<open>v, exists := m[k]\<close> is \<open>m k\<close>.
\<close>

record Config =
  DNS :: "string \<rightharpoonup> string list"

definition lastDNSFilePath :: string where
  "lastDNSFilePath = ''/var/lib/dnsmng/last_dns''"

definition resolvConfPath :: string where
  "resolvConfPath = ''/etc/resolv.conf''"

text \<open>The permission arguments \<^verbatim>\<open>0644\<close> and \<^verbatim>\<open>0755\<close> are octal.\<close>

definition perm_0644 :: nat where
  "perm_0644 = 6 * 64 + 4 * 8 + 4"

definition perm_0755 :: nat where
  "perm_0755 = 7 * 64 + 5 * 8 + 5"

section \<open>Resolver writer: setDNS\<close>

text \<open>
  \<^verbatim>\<open>
  func setDNS(dnsIPs []string) error {
      var content strings.Builder
      for _, ip := range dnsIPs {
          content.WriteString(fmt.Sprintf("nameserver %s\n", ip))
      }
      return os.WriteFile("/etc/resolv.conf", []byte(content.String()), 0644)
  }
  \<close>
  \<open>setDNS_loop\<close> is the \<^verbatim>\<open>for\<close> loop, with the builder's content as accumulator.
  The function is the same in both versions of the program (the older one calls
  \<^verbatim>\<open>ioutil.WriteFile\<close>, which is \<^verbatim>\<open>os.WriteFile\<close>).
\<close>

definition Sprintf_nameserver :: "string \<Rightarrow> string" where
  "Sprintf_nameserver ip = ''nameserver '' @ ip @ ''\<newline>''"

fun setDNS_loop :: "string \<Rightarrow> string list \<Rightarrow> string" where
  "setDNS_loop content [] = content"
| "setDNS_loop content (ip # dnsIPs) = setDNS_loop (content @ Sprintf_nameserver ip) dnsIPs"

definition setDNS :: "string list \<Rightarrow> world \<Rightarrow> error option \<times> world" where
  "setDNS dnsIPs w = os_WriteFile ''/etc/resolv.conf'' (setDNS_loop [] dnsIPs) perm_0644 w"

section \<open>Last-selection store\<close>

text \<open>
  \<^verbatim>\<open>
  func readLastDNS() (string, error) {
      data, err := os.ReadFile(lastDNSFilePath)
      if err != nil { return "", err }
      return string(data), nil
  }
  func saveLastDNS(dnsName string) error {
      dir := filepath.Dir(lastDNSFilePath)
      if err := os.MkdirAll(dir, 0755); err != nil { return err }
      return os.WriteFile(lastDNSFilePath, []byte(dnsName), 0644)
  }
  \<close>
  The pair returned by \<open>readLastDNS\<close> is Go's pair: the string is empty when the error
  is not nil.
\<close>

definition readLastDNS :: "world \<Rightarrow> string \<times> error option" where
  "readLastDNS w =
     (case os_ReadFile lastDNSFilePath w of
        Inl err \<Rightarrow> ([], Some err)
      | Inr data \<Rightarrow> (data, None))"

definition saveLastDNS :: "string \<Rightarrow> world \<Rightarrow> error option \<times> world" where
  "saveLastDNS dnsName w =
     (let dir = filepath_Dir lastDNSFilePath in
      case os_MkdirAll dir perm_0755 w of
        (Some err, w1) \<Rightarrow> (Some err, w1)
      | (None, w1) \<Rightarrow> os_WriteFile lastDNSFilePath dnsName perm_0644 w1)"

section \<open>Startup: main\<close>

text \<open>
  \<open>readConfig\<close> reads the file and hands the bytes to \<^verbatim>\<open>yaml.Unmarshal\<close>, a library
  function that is a parameter of the model (\<open>yaml\<close>).
\<close>

definition readConfig ::
  "(string \<Rightarrow> error + Config) \<Rightarrow> string \<Rightarrow> world \<Rightarrow> error + Config" where
  "readConfig yaml filePath w =
     (case os_ReadFile filePath w of
        Inl err \<Rightarrow> Inl err
      | Inr data \<Rightarrow>
          (case yaml data of
             Inl err \<Rightarrow> Inl err
           | Inr config \<Rightarrow> Inr config))"

text \<open>
  \<open>main\<close> either ends the process (\<^verbatim>\<open>os.Exit(1)\<close>, directly or through \<^verbatim>\<open>log.Fatalf\<close>) or
  reaches the call \<^verbatim>\<open>watchResolvConf(dnsIPs)\<close>.
\<close>

datatype main_result = Exited nat world | CallsWatch "string list" world

fun exit_code :: "main_result \<Rightarrow> nat option" where
  "exit_code (Exited n w) = Some n"
| "exit_code (CallsWatch ips w) = None"

fun watch_args :: "main_result \<Rightarrow> string list option" where
  "watch_args (Exited n w) = None"
| "watch_args (CallsWatch ips w) = Some ips"

fun final_world :: "main_result \<Rightarrow> world" where
  "final_world (Exited n w) = w"
| "final_world (CallsWatch ips w) = w"

definition log_Fatalf :: "string \<Rightarrow> world \<Rightarrow> main_result" where
  "log_Fatalf s w = Exited 1 (log_Printf s w)"

text \<open>Formatting: \<^verbatim>\<open>'%s'\<close> and \<^verbatim>\<open>%v\<close> of a string slice (\<^verbatim>\<open>[a b c]\<close>).\<close>

definition squote :: "string \<Rightarrow> string" where
  "squote s = [CHR 0x27] @ s @ [CHR 0x27]"

fun join_space :: "string list \<Rightarrow> string" where
  "join_space [] = []"
| "join_space [x] = x"
| "join_space (x # y # ys) = x @ '' '' @ join_space (y # ys)"

definition fmt_v :: "string list \<Rightarrow> string" where
  "fmt_v xs = ''['' @ join_space xs @ '']''"

text \<open>
  The branch taken when \<^verbatim>\<open>*domain != ""\<close> (lines 124 to 142 of the program). \<open>Inl\<close> is
  the end of the process, \<open>Inr\<close> the world in which \<open>main\<close> goes on.
\<close>

definition main_set :: "Config \<Rightarrow> string \<Rightarrow> world \<Rightarrow> main_result + world" where
  "main_set config domain w =
     (case DNS config domain of
        None \<Rightarrow>
          Inl (log_Fatalf (''DNS entry for '' @ squote domain @ '' not found in config\<newline>'') w)
      | Some dnsIPs \<Rightarrow>
          (case setDNS dnsIPs w of
             (Some err, w1) \<Rightarrow>
               Inl (log_Fatalf (''Error setting DNS: '' @ error_msg err @ ''\<newline>'') w1)
           | (None, w1) \<Rightarrow>
               (case saveLastDNS domain w1 of
                  (Some err, w2) \<Rightarrow>
                    Inl (log_Fatalf (''Error saving last DNS: '' @ error_msg err @ ''\<newline>'') w2)
                | (None, w2) \<Rightarrow>
                    Inr (log_Printf (''DNS set to '' @ fmt_v dnsIPs @ '' for domain ''
                                       @ squote domain @ ''\<newline>'') w2))))"

text \<open>
  The other branch (lines 143 to 165). \<open>main_lastDNS\<close> is its first statement: the
  value of the variable \<^verbatim>\<open>lastDNS\<close> after the \<^verbatim>\<open>if err != nil || lastDNS == ""\<close>.
\<close>

definition main_lastDNS :: "world \<Rightarrow> string \<times> world" where
  "main_lastDNS w =
     (let (lastDNS, err) = readLastDNS w in
      if err \<noteq> None \<or> lastDNS = []
      then (''local'',
            log_Println ''No previous DNS set or file missing, defaulting to 'local' DNS'' w)
      else (lastDNS, w))"

definition main_restore :: "Config \<Rightarrow> world \<Rightarrow> main_result + world" where
  "main_restore config w =
     (let (lastDNS, w0) = main_lastDNS w in
      case DNS config lastDNS of
        None \<Rightarrow>
          Inl (log_Fatalf (''DNS entry for '' @ squote lastDNS @ '' not found in config\<newline>'') w0)
      | Some dnsIPs \<Rightarrow>
          (case setDNS dnsIPs w0 of
             (Some err, w1) \<Rightarrow>
               Inl (log_Fatalf (''Error setting DNS: '' @ error_msg err @ ''\<newline>'') w1)
           | (None, w1) \<Rightarrow>
               Inr (log_Printf (''Restored last DNS: '' @ lastDNS @ ''\<newline>'') w1)))"

text \<open>
  The last statements (lines 167 to 173): the address list that is passed to
  \<^verbatim>\<open>watchResolvConf\<close>. The single-valued lookup \<^verbatim>\<open>config.DNS[lastDNS]\<close> is nil for a
  missing key, and the error of the second \<^verbatim>\<open>readLastDNS\<close> is dropped.
\<close>

definition main_watch_ips :: "Config \<Rightarrow> string \<Rightarrow> world \<Rightarrow> string list" where
  "main_watch_ips config domain w =
     (case DNS config domain of
        Some dnsIPs \<Rightarrow> dnsIPs
      | None \<Rightarrow>
          (let (lastDNS, _) = readLastDNS w in
           case DNS config lastDNS of
             Some dnsIPs \<Rightarrow> dnsIPs
           | None \<Rightarrow> []))"

definition main ::
  "(string \<Rightarrow> error + Config) \<Rightarrow> string \<Rightarrow> string \<Rightarrow> world \<Rightarrow> main_result" where
  "main yaml configPath domain w =
     (case readConfig yaml configPath w of
        Inl err \<Rightarrow>
          Exited 1 (fmt_Printf (''Error reading config file: '' @ error_msg err @ ''\<newline>'') w)
      | Inr config \<Rightarrow>
          (case (if domain \<noteq> [] then main_set config domain w else main_restore config w) of
             Inl r \<Rightarrow> r
           | Inr w1 \<Rightarrow> CallsWatch (main_watch_ips config domain w1) w1))"

text \<open>The data that the trace records as written to one path, oldest first.\<close>

fun writes_to :: "string \<Rightarrow> io_event list \<Rightarrow> string list" where
  "writes_to p [] = []"
| "writes_to p (WriteFileCall q data perm # es) =
     (if q = p then data # writes_to p es else writes_to p es)"
| "writes_to p (e # es) = writes_to p es"

section \<open>The watch loop\<close>

text \<open>
  The goroutine started by \<^verbatim>\<open>watchResolvConf\<close> (lines 79 to 101):
  \<^verbatim>\<open>
  for {
      select {
      case event, ok := <-watcher.Events:
          if !ok { return }
          if event.Op&fsnotify.Write == fsnotify.Write {
              log.Println("Detected change in /etc/resolv.conf, restoring DNS settings")
              err = setDNS(dnsIPs)
              if err != nil { log.Printf("Error restoring DNS: %s\n", err) }
          }
      case err, ok := <-watcher.Errors:
          if !ok { return }
          log.Println("Error:", err)
      }
  }
  \<close>
  A channel is the list of values waiting to be received and a flag: closed or not. A
  receive takes the first waiting value (\<^verbatim>\<open>ok\<close> is true); on a closed channel with nothing
  waiting it returns at once with \<^verbatim>\<open>ok\<close> false; otherwise it blocks. \<open>recv\<close> is applied
  to ready channels only, and \<open>None\<close> stands for \<^verbatim>\<open>ok == false\<close>.
\<close>

record 'a chan =
  buf :: "'a list"
  closed :: bool

definition ready :: "'a chan \<Rightarrow> bool" where
  "ready c = (buf c \<noteq> [] \<or> closed c)"

definition recv :: "'a chan \<Rightarrow> 'a option \<times> 'a chan" where
  "recv c = (case buf c of [] \<Rightarrow> (None, c) | x # xs \<Rightarrow> (Some x, c\<lparr>buf := xs\<rparr>))"

text \<open>
  \<^verbatim>\<open>fsnotify.Event\<close> and the bit of \<^verbatim>\<open>fsnotify.Op\<close> (a \<^verbatim>\<open>uint32\<close>) that the program
  tests. The library numbers its operations \<^verbatim>\<open>Create = 1 << iota\<close>, \<^verbatim>\<open>Write\<close>,
  \<^verbatim>\<open>Remove\<close>, \<^verbatim>\<open>Rename\<close>, \<^verbatim>\<open>Chmod\<close>.
\<close>

record event =
  Name :: string
  Op :: "32 word"

definition fsnotify_Write :: "32 word" where
  "fsnotify_Write = 2"

record watcher =
  Events :: "event chan"
  Errors :: "error chan"

text \<open>
  \<^verbatim>\<open>select\<close> blocks while no case is ready and chooses among the ready cases otherwise.
  When both are ready Go chooses at random: the choice is the argument \<open>pick\<close>.
\<close>

datatype select_case = CaseEvents | CaseErrors

definition select :: "select_case \<Rightarrow> watcher \<Rightarrow> select_case option" where
  "select pick wt =
     (if ready (Events wt) \<and> ready (Errors wt) then Some pick
      else if ready (Events wt) then Some CaseEvents
      else if ready (Errors wt) then Some CaseErrors
      else None)"

text \<open>
  One iteration of the \<^verbatim>\<open>for\<close> loop. \<open>Continue\<close>: the iteration ended and the loop
  goes round again; \<open>Return\<close>: the goroutine returned; \<open>Blocked\<close>: nothing is ready, the
  goroutine is suspended in \<^verbatim>\<open>select\<close>.
\<close>

datatype loop_status = Continue | Return | Blocked

definition watch_step ::
  "select_case \<Rightarrow> string list \<Rightarrow> watcher \<Rightarrow> world \<Rightarrow> loop_status \<times> watcher \<times> world" where
  "watch_step pick dnsIPs wt w =
     (case select pick wt of
        None \<Rightarrow> (Blocked, wt, w)
      | Some CaseEvents \<Rightarrow>
          (case recv (Events wt) of
             (None, ch) \<Rightarrow> (Return, wt\<lparr>Events := ch\<rparr>, w)
           | (Some event, ch) \<Rightarrow>
               (if Op event AND fsnotify_Write = fsnotify_Write then
                  (let w1 = log_Println
                        ''Detected change in /etc/resolv.conf, restoring DNS settings'' w
                   in case setDNS dnsIPs w1 of
                        (Some err, w2) \<Rightarrow>
                          (Continue, wt\<lparr>Events := ch\<rparr>,
                           log_Printf (''Error restoring DNS: '' @ error_msg err @ ''\<newline>'') w2)
                      | (None, w2) \<Rightarrow> (Continue, wt\<lparr>Events := ch\<rparr>, w2))
                else (Continue, wt\<lparr>Events := ch\<rparr>, w)))
      | Some CaseErrors \<Rightarrow>
          (case recv (Errors wt) of
             (None, ch) \<Rightarrow> (Return, wt\<lparr>Errors := ch\<rparr>, w)
           | (Some err, ch) \<Rightarrow>
               (Continue, wt\<lparr>Errors := ch\<rparr>, log_Println (''Error: '' @ error_msg err) w)))"

text \<open>
  The channels are filled by the environment: the kernel and the fsnotify library, which
  deliver an event for every change of the watched file, the program's own restoring
  writes included, and which may report errors and close the channels. What arrives is a
  list of \<open>arrival\<close>s; a value sent to a closed channel is not delivered.
\<close>

datatype arrival = NewEvent event | NewError error | CloseEvents | CloseErrors

fun deliver :: "arrival \<Rightarrow> watcher \<Rightarrow> watcher" where
  "deliver (NewEvent e) wt =
     (if closed (Events wt) then wt
      else wt\<lparr>Events := (Events wt)\<lparr>buf := buf (Events wt) @ [e]\<rparr>\<rparr>)"
| "deliver (NewError e) wt =
     (if closed (Errors wt) then wt
      else wt\<lparr>Errors := (Errors wt)\<lparr>buf := buf (Errors wt) @ [e]\<rparr>\<rparr>)"
| "deliver CloseEvents wt = wt\<lparr>Events := (Events wt)\<lparr>closed := True\<rparr>\<rparr>"
| "deliver CloseErrors wt = wt\<lparr>Errors := (Errors wt)\<lparr>closed := True\<rparr>\<rparr>"

fun arrive :: "arrival list \<Rightarrow> watcher \<Rightarrow> watcher" where
  "arrive [] wt = wt"
| "arrive (a # as) wt = arrive as (deliver a wt)"

text \<open>
  The \<^verbatim>\<open>for\<close> loop. It has no exit but the two \<^verbatim>\<open>return\<close>s, and it may run forever, so
  the model counts iterations: \<open>watch_loop env sched n k dnsIPs wt w\<close> runs at most \<open>k\<close>
  iterations, the first of them being the \<open>n\<close>-th \<^verbatim>\<open>select\<close> of the goroutine, on the
  channels \<open>wt\<close> as that \<^verbatim>\<open>select\<close> finds them. The result is \<open>Return\<close> with the state
  in which the goroutine returned, or \<open>Continue\<close> with the state before the next
  \<^verbatim>\<open>select\<close> when the goroutine is still alive after \<open>k\<close> iterations. A blocked
  \<^verbatim>\<open>select\<close> waits for the next arrivals.

  \<open>sched n\<close> is the choice of the \<open>n\<close>-th \<^verbatim>\<open>select\<close>, and \<open>env n w\<close> is what arrives
  between that \<^verbatim>\<open>select\<close> and the next one. The environment sees the world \<open>w\<close> that the
  iteration leaves, the trace of the program's writes with it, so that it can answer a
  write with events. The theorems hold for every \<open>env\<close> and every \<open>sched\<close>.
\<close>

fun watch_loop ::
  "(nat \<Rightarrow> world \<Rightarrow> arrival list) \<Rightarrow> (nat \<Rightarrow> select_case) \<Rightarrow> nat \<Rightarrow> nat \<Rightarrow> string list
     \<Rightarrow> watcher \<Rightarrow> world \<Rightarrow> loop_status \<times> watcher \<times> world" where
  "watch_loop env sched n 0 dnsIPs wt w = (Continue, wt, w)"
| "watch_loop env sched n (Suc k) dnsIPs wt w =
     (let (st, wt1, w1) = watch_step (sched n) dnsIPs wt w in
      if st = Return then (Return, wt1, w1)
      else watch_loop env sched (Suc n) k dnsIPs (arrive (env n w1) wt1) w1)"

declare watch_loop.simps [simp del]


section \<open>Sample inputs\<close>

text \<open>
  The configuration of the scenarios, a parser that yields it, and a machine on which
  every system call succeeds and no file exists but the configuration file.
\<close>

definition sample_config :: Config where
  "sample_config =
     \<lparr>DNS = [''local'' \<mapsto> [''127.0.0.1''], ''cloudflare'' \<mapsto> [''1.1.1.1'', ''1.0.0.1'']]\<rparr>"

definition sample_yaml :: "string \<Rightarrow> error + Config" where
  "sample_yaml data = Inr sample_config"

definition sample_world :: world where
  "sample_world =
     \<lparr>files = [''/etc/dnsmng/config.yaml'' \<mapsto> ''dns''],
      dirs = {''/etc'', ''/etc/dnsmng''},
      on_read = (\<lambda>p. None),
      on_write = (\<lambda>p. WriteOk),
      on_mkdir = (\<lambda>p. None),
      trace = []\<rparr>"

text \<open>
  Variations: a last-selection record on disk, a last-selection store that cannot be
  written (its directory cannot be created) and one that cannot be read.
\<close>

definition with_last_dns :: "string \<Rightarrow> world \<Rightarrow> world" where
  "with_last_dns name w = w\<lparr>files := (files w)(lastDNSFilePath \<mapsto> name)\<rparr>"


definition unwritable_store :: "world \<Rightarrow> world" where
  "unwritable_store w =
     w\<lparr>on_mkdir := (\<lambda>p. Some (Error ''mkdir /var/lib/dnsmng: permission denied''))\<rparr>"

definition unreadable_store :: "world \<Rightarrow> world" where
  "unreadable_store w =
     w\<lparr>on_read := (\<lambda>p. if p = lastDNSFilePath
                         then Some (Error ''open /var/lib/dnsmng/last_dns: permission denied'')
                         else None)\<rparr>"


text \<open>An event of the operation \<^verbatim>\<open>fsnotify.Write\<close> on the resolver file.\<close>

definition write_event :: event where
  "write_event = \<lparr>Name = ''/etc/resolv.conf'', Op = fsnotify_Write\<rparr>"

text \<open>
  Watchers with the events \<open>evs\<close> waiting in an open event channel: one whose error
  channel is open and empty, one whose error channel is closed.
\<close>

definition idle_errors :: "event list \<Rightarrow> watcher" where
  "idle_errors evs =
     \<lparr>Events = \<lparr>buf = evs, closed = False\<rparr>, Errors = \<lparr>buf = [], closed = False\<rparr>\<rparr>"

definition closed_errors :: "event list \<Rightarrow> watcher" where
  "closed_errors evs =
     \<lparr>Events = \<lparr>buf = evs, closed = False\<rparr>, Errors = \<lparr>buf = [], closed = True\<rparr>\<rparr>"

definition closed_both :: watcher where
  "closed_both =
     \<lparr>Events = \<lparr>buf = [], closed = True\<rparr>, Errors = \<lparr>buf = [], closed = True\<rparr>\<rparr>"

text \<open>
  An environment that answers the program's writes: when the last thing the program did
  is a write to the resolver file that returned without error, one \<^verbatim>\<open>Write\<close> event
  arrives. (A failed write is followed by its log line.)
\<close>

definition notify_own_write :: "nat \<Rightarrow> world \<Rightarrow> arrival list" where
  "notify_own_write n w =
     (case rev (trace w) of
        WriteFileCall p data perm # es \<Rightarrow>
          (if p = resolvConfPath then [NewEvent write_event] else [])
      | _ \<Rightarrow> [])"

text \<open>A control character, as a byte: below \<^verbatim>\<open>0x20\<close>, or \<^verbatim>\<open>0x7F\<close>.\<close>

definition control_char :: "char \<Rightarrow> bool" where
  "control_char c = (of_char c < (32 :: nat) \<or> of_char c = (127 :: nat))"

section \<open>Basic facts\<close>

lemma emit_simps:
  "trace (emit e w) = trace w @ [e]"
  "files (emit e w) = files w"
  "dirs (emit e w) = dirs w"
  "on_read (emit e w) = on_read w"
  "on_write (emit e w) = on_write w"
  "on_mkdir (emit e w) = on_mkdir w"
  by (simp_all add: emit_def)

lemma writes_to_append:
  "writes_to p (xs @ ys) = writes_to p xs @ writes_to p ys"
  by (induction p xs rule: writes_to.induct) simp_all

lemma setDNS_loop_concat:
  "setDNS_loop content dnsIPs = content @ concat (map Sprintf_nameserver dnsIPs)"
  by (induction dnsIPs arbitrary: content) simp_all

lemma setDNS_content:
  "setDNS_loop [] dnsIPs = concat (map (\<lambda>ip. ''nameserver '' @ ip @ ''\<newline>'') dnsIPs)"
  using setDNS_loop_concat [of "[]" dnsIPs]
  by (simp add: Sprintf_nameserver_def [abs_def])

lemma setDNS_returns_nil_iff:
  "fst (setDNS dnsIPs w) = None \<longleftrightarrow> on_write w resolvConfPath = WriteOk"
  by (simp add: setDNS_def os_WriteFile_def resolvConfPath_def Let_def
           split: write_outcome.split)

lemma setDNS_trace:
  "trace (snd (setDNS dnsIPs w)) =
     trace w @ [WriteFileCall resolvConfPath (setDNS_loop [] dnsIPs) perm_0644]"
  by (simp add: setDNS_def os_WriteFile_def resolvConfPath_def emit_simps Let_def
           split: write_outcome.split)

lemma setDNS_files_ok:
  "fst (setDNS dnsIPs w) = None \<Longrightarrow>
   files (snd (setDNS dnsIPs w)) = (files w)(resolvConfPath \<mapsto> setDNS_loop [] dnsIPs)"
  by (simp add: setDNS_def os_WriteFile_def resolvConfPath_def emit_simps Let_def
           split: write_outcome.splits)

lemma setDNS_oracles:
  "on_write (snd (setDNS dnsIPs w)) = on_write w"
  "on_read (snd (setDNS dnsIPs w)) = on_read w"
  "on_mkdir (snd (setDNS dnsIPs w)) = on_mkdir w"
  by (simp_all add: setDNS_def os_WriteFile_def emit_simps Let_def split: write_outcome.split)

lemma sample_world_simps:
  "on_write sample_world p = WriteOk"
  "on_read sample_world p = None"
  "on_mkdir sample_world p = None"
  "trace sample_world = []"
  by (simp_all add: sample_world_def)

lemma sample_config_simps:
  "DNS sample_config ''local'' = Some [''127.0.0.1'']"
  "DNS sample_config ''cloudflare'' = Some [''1.1.1.1'', ''1.0.0.1'']"
  "DNS sample_config ''google'' = None"
  "DNS sample_config [] = None"
  by (simp_all add: sample_config_def)

section \<open>Properties of setDNS\<close>

text \<open>
  C1. For every profile present in the loaded config, applying the profile's address list
  with \<open>setDNS\<close> (the write succeeding) returns nil and leaves the resolver file with
  exactly the concatenation, in the profile's address order, of one line
  \<^verbatim>\<open>nameserver <ip>\<close> per address, each terminated by a newline.
\<close>

theorem setDNS_profile_content:
  assumes "DNS config name = Some dnsIPs"
    and "on_write w resolvConfPath = WriteOk"
  shows "fst (setDNS dnsIPs w) = None \<and>
         files (snd (setDNS dnsIPs w)) resolvConfPath =
           Some (concat (map (\<lambda>ip. ''nameserver '' @ ip @ ''\<newline>'') dnsIPs))"
proof -
  from assms(2) have ok: "fst (setDNS dnsIPs w) = None"
    by (simp add: setDNS_returns_nil_iff)
  then show ?thesis
    by (simp add: setDNS_files_ok setDNS_content)
qed

theorem setDNS_profile_content_witness:
  "DNS sample_config ''cloudflare'' = Some [''1.1.1.1'', ''1.0.0.1''] \<and>
   on_write sample_world resolvConfPath = WriteOk \<and>
   fst (setDNS [''1.1.1.1'', ''1.0.0.1''] sample_world) = None \<and>
   files (snd (setDNS [''1.1.1.1'', ''1.0.0.1''] sample_world)) resolvConfPath =
     Some ''nameserver 1.1.1.1\<newline>nameserver 1.0.0.1\<newline>''"
proof -
  have h1: "DNS sample_config ''cloudflare'' = Some [''1.1.1.1'', ''1.0.0.1'']"
    by (simp add: sample_config_def)
  have h2: "on_write sample_world resolvConfPath = WriteOk"
    by (simp add: sample_world_def)
  from setDNS_profile_content [OF h1 h2] h1 h2 show ?thesis
    by simp
qed

text \<open>
  C9. Applying the same address list twice, both writes succeeding, leaves the resolver
  file with the same bytes after the second call as after the first; the bytes are
  \<open>setDNS_loop [] dnsIPs\<close>, a function of the address list alone.
\<close>

theorem setDNS_idempotent:
  assumes "fst (setDNS dnsIPs w) = None"
    and "fst (setDNS dnsIPs (snd (setDNS dnsIPs w))) = None"
  shows "files (snd (setDNS dnsIPs (snd (setDNS dnsIPs w)))) resolvConfPath =
           files (snd (setDNS dnsIPs w)) resolvConfPath \<and>
         files (snd (setDNS dnsIPs w)) resolvConfPath = Some (setDNS_loop [] dnsIPs)"
  using assms by (simp add: setDNS_files_ok)

theorem setDNS_idempotent_witness:
  "fst (setDNS [''1.1.1.1'', ''1.0.0.1''] sample_world) = None \<and>
   fst (setDNS [''1.1.1.1'', ''1.0.0.1''] (snd (setDNS [''1.1.1.1'', ''1.0.0.1''] sample_world))) = None \<and>
   files (snd (setDNS [''1.1.1.1'', ''1.0.0.1''] (snd (setDNS [''1.1.1.1'', ''1.0.0.1''] sample_world))))
       resolvConfPath =
     files (snd (setDNS [''1.1.1.1'', ''1.0.0.1''] sample_world)) resolvConfPath \<and>
   files (snd (setDNS [''1.1.1.1'', ''1.0.0.1''] sample_world)) resolvConfPath =
     Some ''nameserver 1.1.1.1\<newline>nameserver 1.0.0.1\<newline>''"
proof -
  have h1: "fst (setDNS [''1.1.1.1'', ''1.0.0.1''] sample_world) = None"
    by (simp add: setDNS_returns_nil_iff sample_world_simps)
  have h2: "fst (setDNS [''1.1.1.1'', ''1.0.0.1''] (snd (setDNS [''1.1.1.1'', ''1.0.0.1''] sample_world))) = None"
    by (simp add: setDNS_returns_nil_iff setDNS_oracles sample_world_simps)
  from setDNS_idempotent [OF h1 h2] h1 h2 show ?thesis
    by (simp add: Sprintf_nameserver_def)
qed

text \<open>
  C10. \<open>setDNS\<close> accepts the empty (or nil) address list: when the write succeeds it
  returns nil and the resolver file is left with zero bytes.
\<close>

theorem setDNS_empty_truncates:
  assumes "on_write w resolvConfPath = WriteOk"
  shows "fst (setDNS [] w) = None \<and> files (snd (setDNS [] w)) resolvConfPath = Some []"
proof -
  from assms have "fst (setDNS [] w) = None"
    by (simp add: setDNS_returns_nil_iff)
  then show ?thesis
    by (simp add: setDNS_files_ok)
qed

theorem setDNS_empty_truncates_witness:
  "on_write (sample_world\<lparr>files := [resolvConfPath \<mapsto> ''nameserver 8.8.8.8\<newline>'']\<rparr>) resolvConfPath = WriteOk \<and>
   fst (setDNS [] (sample_world\<lparr>files := [resolvConfPath \<mapsto> ''nameserver 8.8.8.8\<newline>'']\<rparr>)) = None \<and>
   files (snd (setDNS [] (sample_world\<lparr>files := [resolvConfPath \<mapsto> ''nameserver 8.8.8.8\<newline>'']\<rparr>)))
     resolvConfPath = Some []"
proof -
  have h: "on_write (sample_world\<lparr>files := [resolvConfPath \<mapsto> ''nameserver 8.8.8.8\<newline>'']\<rparr>)
             resolvConfPath = WriteOk"
    by (simp add: sample_world_def)
  from setDNS_empty_truncates [OF h] h show ?thesis
    by simp
qed

section \<open>Properties of the last-selection store\<close>

lemma os_MkdirAll_keeps:
  "files (snd (os_MkdirAll path perm w)) = files w"
  "on_read (snd (os_MkdirAll path perm w)) = on_read w"
  "on_write (snd (os_MkdirAll path perm w)) = on_write w"
  "trace (snd (os_MkdirAll path perm w)) = trace w @ [MkdirAllCall path perm]"
  by (simp_all add: os_MkdirAll_def emit_simps Let_def split: option.split)

lemma saveLastDNS_files_ok:
  assumes "fst (saveLastDNS dnsName w) = None"
  shows "files (snd (saveLastDNS dnsName w)) = (files w)(lastDNSFilePath \<mapsto> dnsName)"
proof (cases "os_MkdirAll (filepath_Dir lastDNSFilePath) perm_0755 w")
  case (Pair r w1)
  with assms have r: "r = None"
    by (cases r) (simp_all add: saveLastDNS_def Let_def)
  have w1: "files w1 = files w"
    using os_MkdirAll_keeps(1) [of "filepath_Dir lastDNSFilePath" perm_0755 w] Pair by simp
  from assms Pair r have "on_write w1 lastDNSFilePath = WriteOk"
    by (simp add: saveLastDNS_def Let_def os_WriteFile_def split: write_outcome.splits)
  with Pair r w1 show ?thesis
    by (simp add: saveLastDNS_def Let_def os_WriteFile_def emit_simps)
qed

lemma readLastDNS_ok:
  assumes "snd (readLastDNS w) = None"
  shows "files w lastDNSFilePath = Some (fst (readLastDNS w))"
  using assms
  by (simp add: readLastDNS_def os_ReadFile_def split: option.splits)

lemma save_then_read:
  assumes "fst (saveLastDNS dnsName w) = None"
    and "snd (readLastDNS (snd (saveLastDNS dnsName w))) = None"
  shows "fst (readLastDNS (snd (saveLastDNS dnsName w))) = dnsName"
proof -
  from readLastDNS_ok [OF assms(2)]
  have "files (snd (saveLastDNS dnsName w)) lastDNSFilePath =
          Some (fst (readLastDNS (snd (saveLastDNS dnsName w))))" .
  with saveLastDNS_files_ok [OF assms(1)] show ?thesis
    by simp
qed

text \<open>
  C8. For every non-empty name without control characters, \<open>saveLastDNS name\<close> followed
  by \<open>readLastDNS\<close>, both returning a nil error, reads back exactly \<open>name\<close>. (The two
  conditions on the name are not used: \<open>save_then_read\<close> is the same for every name.)
\<close>

theorem saveLastDNS_readLastDNS_roundtrip:
  assumes "name \<noteq> []"
    and "\<forall>c \<in> set name. \<not> control_char c"
    and "fst (saveLastDNS name w) = None"
    and "snd (readLastDNS (snd (saveLastDNS name w))) = None"
  shows "fst (readLastDNS (snd (saveLastDNS name w))) = name"
  using assms(3,4) by (rule save_then_read)

lemma sample_save_ok:
  "fst (saveLastDNS name sample_world) = None"
  by (simp add: saveLastDNS_def os_MkdirAll_def os_WriteFile_def Let_def emit_simps
        sample_world_simps)

lemma sample_save_read_ok:
  "snd (readLastDNS (snd (saveLastDNS name sample_world))) = None"
  by (simp add: saveLastDNS_def os_MkdirAll_def os_WriteFile_def Let_def emit_simps
        sample_world_simps readLastDNS_def os_ReadFile_def)

theorem saveLastDNS_readLastDNS_roundtrip_witness:
  "''cloudflare'' \<noteq> [] \<and>
   list_all (\<lambda>c. \<not> control_char c) ''cloudflare'' \<and>
   fst (saveLastDNS ''cloudflare'' sample_world) = None \<and>
   snd (readLastDNS (snd (saveLastDNS ''cloudflare'' sample_world))) = None \<and>
   fst (readLastDNS (snd (saveLastDNS ''cloudflare'' sample_world))) = ''cloudflare''"
proof -
  have h1: "''cloudflare'' \<noteq> []"
    by simp
  have h2: "\<forall>c \<in> set ''cloudflare''. \<not> control_char c"
    by (simp add: control_char_def)
  have h3: "fst (saveLastDNS ''cloudflare'' sample_world) = None"
    by (rule sample_save_ok)
  have h4: "snd (readLastDNS (snd (saveLastDNS ''cloudflare'' sample_world))) = None"
    by (rule sample_save_read_ok)
  from saveLastDNS_readLastDNS_roundtrip [OF h1 h2 h3 h4] h2 h3 h4 show ?thesis
    by (simp add: list_all_iff)
qed

section \<open>Properties of the startup\<close>

lemma log_simps:
  "trace (log_Printf s w) = trace w @ [LogLine s]"
  "files (log_Printf s w) = files w"
  "on_write (log_Printf s w) = on_write w"
  "on_read (log_Printf s w) = on_read w"
  "trace (log_Println s w) = trace w @ [LogLine (s @ ''\<newline>'')]"
  "files (log_Println s w) = files w"
  "on_write (log_Println s w) = on_write w"
  "on_read (log_Println s w) = on_read w"
  by (simp_all add: log_Printf_def log_Println_def emit_simps)

lemma main_lastDNS_world:
  "files (snd (main_lastDNS w)) = files w"
  "on_write (snd (main_lastDNS w)) = on_write w"
  "on_read (snd (main_lastDNS w)) = on_read w"
  "writes_to p (trace (snd (main_lastDNS w))) = writes_to p (trace w)"
  by (simp_all add: main_lastDNS_def log_simps writes_to_append split: prod.split)

lemma main_lastDNS_name:
  "fst (main_lastDNS w) =
     (if snd (readLastDNS w) \<noteq> None \<or> fst (readLastDNS w) = [] then ''local''
      else fst (readLastDNS w))"
  by (simp add: main_lastDNS_def split: prod.split)

text \<open>
  C3. When \<^verbatim>\<open>--set\<close> names a profile that the loaded config does not have, \<open>main\<close> ends
  the process with status 1; the only effect is one log line, so nothing is written to the
  resolver file or to the last-selection file and the file system is unchanged.
\<close>

theorem main_unknown_explicit_profile:
  assumes "domain \<noteq> []"
    and "readConfig yaml configPath w = Inr config"
    and "DNS config domain = None"
  shows "exit_code (main yaml configPath domain w) = Some 1 \<and>
         trace (final_world (main yaml configPath domain w)) =
           trace w @ [LogLine (''DNS entry for '' @ squote domain @ '' not found in config\<newline>'')] \<and>
         writes_to resolvConfPath (trace (final_world (main yaml configPath domain w))) =
           writes_to resolvConfPath (trace w) \<and>
         writes_to lastDNSFilePath (trace (final_world (main yaml configPath domain w))) =
           writes_to lastDNSFilePath (trace w) \<and>
         files (final_world (main yaml configPath domain w)) = files w \<and>
         dirs (final_world (main yaml configPath domain w)) = dirs w"
proof -
  from assms have "main yaml configPath domain w =
      Exited 1 (log_Printf (''DNS entry for '' @ squote domain @ '' not found in config\<newline>'') w)"
    by (simp add: main_def main_set_def log_Fatalf_def)
  then show ?thesis
    by (simp add: log_simps writes_to_append log_Printf_def emit_simps)
qed

theorem main_unknown_explicit_profile_witness:
  "''google'' \<noteq> [] \<and>
   readConfig sample_yaml ''/etc/dnsmng/config.yaml'' sample_world = Inr sample_config \<and>
   DNS sample_config ''google'' = None \<and>
   exit_code (main sample_yaml ''/etc/dnsmng/config.yaml'' ''google'' sample_world) = Some 1 \<and>
   writes_to resolvConfPath
     (trace (final_world (main sample_yaml ''/etc/dnsmng/config.yaml'' ''google'' sample_world))) = [] \<and>
   writes_to lastDNSFilePath
     (trace (final_world (main sample_yaml ''/etc/dnsmng/config.yaml'' ''google'' sample_world))) = [] \<and>
   files (final_world (main sample_yaml ''/etc/dnsmng/config.yaml'' ''google'' sample_world)) =
     files sample_world"
proof -
  have h1: "''google'' \<noteq> []"
    by simp
  have h2: "readConfig sample_yaml ''/etc/dnsmng/config.yaml'' sample_world = Inr sample_config"
    by (simp add: readConfig_def os_ReadFile_def sample_world_def sample_yaml_def)
  have h3: "DNS sample_config ''google'' = None"
    by (simp add: sample_config_def)
  from main_unknown_explicit_profile [OF h1 h2 h3] h2 h3 show ?thesis
    by (simp add: sample_world_simps)
qed

lemma main_restore_branch:
  assumes "readConfig yaml configPath w = Inr config"
  shows "main yaml configPath [] w =
     (case main_restore config w of
        Inl r \<Rightarrow> r
      | Inr w1 \<Rightarrow> CallsWatch (main_watch_ips config [] w1) w1)"
  using assms by (simp add: main_def)

lemma main_restore_missing:
  assumes "DNS config (fst (main_lastDNS w)) = None"
  shows "main_restore config w =
     Inl (Exited 1 (log_Printf (''DNS entry for '' @ squote (fst (main_lastDNS w))
                                @ '' not found in config\<newline>'') (snd (main_lastDNS w))))"
  using assms by (simp add: main_restore_def log_Fatalf_def case_prod_beta)

lemma main_restore_found_writes:
  assumes "DNS config (fst (main_lastDNS w)) = Some dnsIPs"
  shows "writes_to resolvConfPath
           (trace (case main_restore config w of Inl r \<Rightarrow> final_world r | Inr w1 \<Rightarrow> w1)) =
         writes_to resolvConfPath (trace w) @ [setDNS_loop [] dnsIPs]"
proof (cases "main_lastDNS w")
  case (Pair lastDNS w0)
  then have w0: "writes_to resolvConfPath (trace w0) = writes_to resolvConfPath (trace w)"
    using main_lastDNS_world(4) [of resolvConfPath w] by simp
  obtain r w1 where s: "setDNS dnsIPs w0 = (r, w1)"
    by (cases "setDNS dnsIPs w0")
  then have "trace w1 = trace w0 @ [WriteFileCall resolvConfPath (setDNS_loop [] dnsIPs) perm_0644]"
    using setDNS_trace [of dnsIPs w0] by simp
  with assms Pair s w0 show ?thesis
    by (cases r) (simp_all add: main_restore_def log_Fatalf_def log_simps writes_to_append)
qed

text \<open>
  C4. Without \<^verbatim>\<open>--set\<close>: the name that is looked up is \<^verbatim>\<open>local\<close> when reading the
  last-selection record fails or yields the empty string, and the record's content
  otherwise. When the config has no entry for that name the process ends with status 1,
  having written nothing (there is no further fallback); when it has one, that entry's
  addresses are what is written to the resolver file.
\<close>

theorem main_restore_lookup:
  assumes "readConfig yaml configPath w = Inr config"
  shows "fst (main_lastDNS w) =
           (if snd (readLastDNS w) \<noteq> None \<or> fst (readLastDNS w) = [] then ''local''
            else fst (readLastDNS w)) \<and>
         (DNS config (fst (main_lastDNS w)) = None \<longrightarrow>
            exit_code (main yaml configPath [] w) = Some 1 \<and>
            last (trace (final_world (main yaml configPath [] w))) =
              LogLine (''DNS entry for '' @ squote (fst (main_lastDNS w))
                       @ '' not found in config\<newline>'') \<and>
            writes_to resolvConfPath (trace (final_world (main yaml configPath [] w))) =
              writes_to resolvConfPath (trace w) \<and>
            files (final_world (main yaml configPath [] w)) = files w) \<and>
         (\<forall>dnsIPs. DNS config (fst (main_lastDNS w)) = Some dnsIPs \<longrightarrow>
            writes_to resolvConfPath (trace (final_world (main yaml configPath [] w))) =
              writes_to resolvConfPath (trace w) @ [setDNS_loop [] dnsIPs])"
proof (intro conjI impI allI)
  show "fst (main_lastDNS w) =
          (if snd (readLastDNS w) \<noteq> None \<or> fst (readLastDNS w) = [] then ''local''
           else fst (readLastDNS w))"
    by (rule main_lastDNS_name)
next
  assume none: "DNS config (fst (main_lastDNS w)) = None"
  have m: "main yaml configPath [] w =
      Exited 1 (log_Printf (''DNS entry for '' @ squote (fst (main_lastDNS w))
                            @ '' not found in config\<newline>'') (snd (main_lastDNS w)))"
    by (simp add: main_restore_branch [OF assms] main_restore_missing [OF none])
  show "exit_code (main yaml configPath [] w) = Some 1"
    by (simp add: m)
  show "last (trace (final_world (main yaml configPath [] w))) =
          LogLine (''DNS entry for '' @ squote (fst (main_lastDNS w))
                   @ '' not found in config\<newline>'')"
    by (simp add: m log_simps)
  show "writes_to resolvConfPath (trace (final_world (main yaml configPath [] w))) =
          writes_to resolvConfPath (trace w)"
    by (simp add: m log_simps writes_to_append main_lastDNS_world)
  show "files (final_world (main yaml configPath [] w)) = files w"
    by (simp add: m log_simps main_lastDNS_world)
next
  fix dnsIPs
  assume some: "DNS config (fst (main_lastDNS w)) = Some dnsIPs"
  have "final_world (main yaml configPath [] w) =
          (case main_restore config w of Inl r \<Rightarrow> final_world r | Inr w1 \<Rightarrow> w1)"
    by (simp add: main_restore_branch [OF assms] split: sum.split)
  then show "writes_to resolvConfPath (trace (final_world (main yaml configPath [] w))) =
          writes_to resolvConfPath (trace w) @ [setDNS_loop [] dnsIPs]"
    using main_restore_found_writes [OF some] by simp
qed

lemma sample_readConfig:
  "readConfig sample_yaml ''/etc/dnsmng/config.yaml'' sample_world = Inr sample_config"
  "readConfig sample_yaml ''/etc/dnsmng/config.yaml'' (with_last_dns name sample_world) =
     Inr sample_config"
  "readConfig sample_yaml ''/etc/dnsmng/config.yaml'' (unwritable_store sample_world) =
     Inr sample_config"
  "readConfig sample_yaml ''/etc/dnsmng/config.yaml'' (unreadable_store (with_last_dns name sample_world)) =
     Inr sample_config"
  by (simp_all add: readConfig_def os_ReadFile_def sample_world_def sample_yaml_def
        with_last_dns_def unwritable_store_def unreadable_store_def lastDNSFilePath_def)

lemma sample_readLastDNS:
  "fst (readLastDNS sample_world) = []"
  "snd (readLastDNS sample_world) =
     Some (Error ''open /var/lib/dnsmng/last_dns: no such file or directory'')"
  "readLastDNS (with_last_dns name sample_world) = (name, None)"
  "readLastDNS (unreadable_store w) =
     ([], Some (Error ''open /var/lib/dnsmng/last_dns: permission denied''))"
  by (simp_all add: readLastDNS_def os_ReadFile_def sample_world_def with_last_dns_def
        unreadable_store_def lastDNSFilePath_def)

theorem main_restore_lookup_witness:
  "readConfig sample_yaml ''/etc/dnsmng/config.yaml'' (with_last_dns ''gone'' sample_world) =
     Inr sample_config \<and>
   fst (main_lastDNS (with_last_dns ''gone'' sample_world)) = ''gone'' \<and>
   DNS sample_config ''gone'' = None \<and>
   DNS sample_config ''local'' = Some [''127.0.0.1''] \<and>
   exit_code (main sample_yaml ''/etc/dnsmng/config.yaml'' [] (with_last_dns ''gone'' sample_world)) =
     Some 1 \<and>
   writes_to resolvConfPath
     (trace (final_world
        (main sample_yaml ''/etc/dnsmng/config.yaml'' [] (with_last_dns ''gone'' sample_world)))) = [] \<and>
   readConfig sample_yaml ''/etc/dnsmng/config.yaml'' sample_world = Inr sample_config \<and>
   fst (main_lastDNS sample_world) = ''local'' \<and>
   writes_to resolvConfPath
     (trace (final_world (main sample_yaml ''/etc/dnsmng/config.yaml'' [] sample_world))) =
     [''nameserver 127.0.0.1\<newline>'']"
proof -
  have h1: "readConfig sample_yaml ''/etc/dnsmng/config.yaml'' (with_last_dns ''gone'' sample_world) =
      Inr sample_config"
    by (rule sample_readConfig)
  have h2: "readConfig sample_yaml ''/etc/dnsmng/config.yaml'' sample_world = Inr sample_config"
    by (rule sample_readConfig)
  have t1: "trace (with_last_dns ''gone'' sample_world) = []"
    by (simp add: with_last_dns_def sample_world_def)
  have c1: "DNS sample_config ''gone'' = None"
    by (simp add: sample_config_def)
  from main_restore_lookup [OF h1] main_restore_lookup [OF h2] h1 h2 c1 t1 show ?thesis
    by (simp add: sample_readLastDNS sample_config_simps sample_world_simps Sprintf_nameserver_def)
qed

lemma main_set_save_fails:
  assumes "DNS config domain = Some dnsIPs"
    and "fst (setDNS dnsIPs w) = None"
    and "fst (saveLastDNS domain (snd (setDNS dnsIPs w))) = Some err"
  shows "main_set config domain w =
     Inl (Exited 1 (log_Printf (''Error saving last DNS: '' @ error_msg err @ ''\<newline>'')
                      (snd (saveLastDNS domain (snd (setDNS dnsIPs w))))))"
  using assms
  by (cases "setDNS dnsIPs w"; cases "saveLastDNS domain (snd (setDNS dnsIPs w))")
     (simp add: main_set_def log_Fatalf_def)

lemma main_restore_read_fails:
  assumes "snd (readLastDNS w) = Some err"
    and "DNS config ''local'' = Some dnsIPs"
    and "on_write w resolvConfPath = WriteOk"
  shows "\<exists>w1. main_restore config w = Inr w1 \<and>
           trace w1 = trace w @
             [LogLine ''No previous DNS set or file missing, defaulting to 'local' DNS\<newline>'',
              WriteFileCall resolvConfPath (setDNS_loop [] dnsIPs) perm_0644,
              LogLine ''Restored last DNS: local\<newline>'']"
proof -
  let ?w0 = "log_Println ''No previous DNS set or file missing, defaulting to 'local' DNS'' w"
  from assms(1) have l: "main_lastDNS w = (''local'', ?w0)"
    by (simp add: main_lastDNS_def case_prod_beta)
  from assms(3) have ok: "fst (setDNS dnsIPs ?w0) = None"
    by (simp add: setDNS_returns_nil_iff log_simps)
  then obtain w1 where s: "setDNS dnsIPs ?w0 = (None, w1)"
    by (cases "setDNS dnsIPs ?w0") simp
  then have "trace w1 = trace ?w0 @ [WriteFileCall resolvConfPath (setDNS_loop [] dnsIPs) perm_0644]"
    using setDNS_trace [of dnsIPs ?w0] by simp
  with l s assms(2) show ?thesis
    by (simp add: main_restore_def log_simps)
qed

text \<open>
  C5. A persistence error ends the process in the \<^verbatim>\<open>--set\<close> path and only there. With
  \<^verbatim>\<open>--set\<close>, once the profile is found and written, a failing \<open>saveLastDNS\<close> ends the
  process with status 1 after the line \<^verbatim>\<open>Error saving last DNS\<close>. Without
  \<^verbatim>\<open>--set\<close>, a failing \<open>readLastDNS\<close> is logged and the profile \<^verbatim>\<open>local\<close> is applied:
  when the config has it and the write succeeds, \<open>main\<close> goes on to the watch loop.
\<close>

theorem persistence_error_fatal_only_when_explicit:
  assumes "readConfig yaml configPath w = Inr config"
  shows "(domain \<noteq> [] \<and> DNS config domain = Some dnsIPs \<and> fst (setDNS dnsIPs w) = None \<and>
          fst (saveLastDNS domain (snd (setDNS dnsIPs w))) = Some err \<longrightarrow>
            exit_code (main yaml configPath domain w) = Some 1 \<and>
            last (trace (final_world (main yaml configPath domain w))) =
              LogLine (''Error saving last DNS: '' @ error_msg err @ ''\<newline>'')) \<and>
         (snd (readLastDNS w) = Some err \<and> DNS config ''local'' = Some dnsIPs \<and>
          on_write w resolvConfPath = WriteOk \<longrightarrow>
            exit_code (main yaml configPath [] w) = None \<and>
            trace (final_world (main yaml configPath [] w)) =
              trace w @
                [LogLine ''No previous DNS set or file missing, defaulting to 'local' DNS\<newline>'',
                 WriteFileCall resolvConfPath (setDNS_loop [] dnsIPs) perm_0644,
                 LogLine ''Restored last DNS: local\<newline>''])"
proof (intro conjI impI)
  assume a: "domain \<noteq> [] \<and> DNS config domain = Some dnsIPs \<and> fst (setDNS dnsIPs w) = None \<and>
             fst (saveLastDNS domain (snd (setDNS dnsIPs w))) = Some err"
  then have m: "main yaml configPath domain w =
      Exited 1 (log_Printf (''Error saving last DNS: '' @ error_msg err @ ''\<newline>'')
                  (snd (saveLastDNS domain (snd (setDNS dnsIPs w)))))"
    using assms main_set_save_fails [of config domain dnsIPs w err]
    by (simp add: main_def)
  show "exit_code (main yaml configPath domain w) = Some 1"
    by (simp add: m)
  show "last (trace (final_world (main yaml configPath domain w))) =
          LogLine (''Error saving last DNS: '' @ error_msg err @ ''\<newline>'')"
    by (simp add: m log_simps)
next
  assume b: "snd (readLastDNS w) = Some err \<and> DNS config ''local'' = Some dnsIPs \<and>
             on_write w resolvConfPath = WriteOk"
  then obtain w1 where r: "main_restore config w = Inr w1"
    and t: "trace w1 = trace w @
             [LogLine ''No previous DNS set or file missing, defaulting to 'local' DNS\<newline>'',
              WriteFileCall resolvConfPath (setDNS_loop [] dnsIPs) perm_0644,
              LogLine ''Restored last DNS: local\<newline>'']"
    using main_restore_read_fails [of w err config dnsIPs] by blast
  from r have m: "main yaml configPath [] w = CallsWatch (main_watch_ips config [] w1) w1"
    by (simp add: main_restore_branch [OF assms])
  show "exit_code (main yaml configPath [] w) = None"
    by (simp add: m)
  show "trace (final_world (main yaml configPath [] w)) =
          trace w @
            [LogLine ''No previous DNS set or file missing, defaulting to 'local' DNS\<newline>'',
             WriteFileCall resolvConfPath (setDNS_loop [] dnsIPs) perm_0644,
             LogLine ''Restored last DNS: local\<newline>'']"
    by (simp add: m t)
qed

lemma unwritable_store_save:
  "fst (saveLastDNS name (snd (setDNS dnsIPs (unwritable_store w)))) =
     Some (Error ''mkdir /var/lib/dnsmng: permission denied'')"
  by (simp add: saveLastDNS_def os_MkdirAll_def Let_def setDNS_oracles unwritable_store_def)

theorem persistence_error_fatal_only_when_explicit_witness:
  "readConfig sample_yaml ''/etc/dnsmng/config.yaml'' (unwritable_store sample_world) =
     Inr sample_config \<and>
   fst (setDNS [''1.1.1.1'', ''1.0.0.1''] (unwritable_store sample_world)) = None \<and>
   fst (saveLastDNS ''cloudflare''
         (snd (setDNS [''1.1.1.1'', ''1.0.0.1''] (unwritable_store sample_world)))) =
     Some (Error ''mkdir /var/lib/dnsmng: permission denied'') \<and>
   exit_code (main sample_yaml ''/etc/dnsmng/config.yaml'' ''cloudflare''
                (unwritable_store sample_world)) = Some 1 \<and>
   readConfig sample_yaml ''/etc/dnsmng/config.yaml''
       (unreadable_store (with_last_dns ''cloudflare'' sample_world)) = Inr sample_config \<and>
   snd (readLastDNS (unreadable_store (with_last_dns ''cloudflare'' sample_world))) =
     Some (Error ''open /var/lib/dnsmng/last_dns: permission denied'') \<and>
   exit_code (main sample_yaml ''/etc/dnsmng/config.yaml'' []
                (unreadable_store (with_last_dns ''cloudflare'' sample_world))) = None \<and>
   writes_to resolvConfPath
     (trace (final_world (main sample_yaml ''/etc/dnsmng/config.yaml'' []
                (unreadable_store (with_last_dns ''cloudflare'' sample_world))))) =
     [''nameserver 127.0.0.1\<newline>'']"
proof -
  have h1: "readConfig sample_yaml ''/etc/dnsmng/config.yaml'' (unwritable_store sample_world) =
      Inr sample_config"
    by (rule sample_readConfig)
  have h2: "readConfig sample_yaml ''/etc/dnsmng/config.yaml''
      (unreadable_store (with_last_dns ''cloudflare'' sample_world)) = Inr sample_config"
    by (rule sample_readConfig)
  have a1: "fst (setDNS [''1.1.1.1'', ''1.0.0.1''] (unwritable_store sample_world)) = None"
    by (simp add: setDNS_returns_nil_iff unwritable_store_def sample_world_def)
  have b1: "on_write (unreadable_store (with_last_dns ''cloudflare'' sample_world)) resolvConfPath
      = WriteOk"
    by (simp add: unreadable_store_def with_last_dns_def sample_world_def)
  have b2: "trace (unreadable_store (with_last_dns ''cloudflare'' sample_world)) = []"
    by (simp add: unreadable_store_def with_last_dns_def sample_world_def)
  from persistence_error_fatal_only_when_explicit
         [OF h1, of "''cloudflare''" "[''1.1.1.1'', ''1.0.0.1'']"
            "Error ''mkdir /var/lib/dnsmng: permission denied''"]
       persistence_error_fatal_only_when_explicit
         [OF h2, of "[]" "[''127.0.0.1'']"
            "Error ''open /var/lib/dnsmng/last_dns: permission denied''"]
       h1 h2 a1 b1 b2
  show ?thesis
    by (simp add: unwritable_store_save sample_readLastDNS sample_config_simps
          resolvConfPath_def Sprintf_nameserver_def)
qed

section \<open>The address list handed to the watch loop\<close>

lemma paths_differ:
  "lastDNSFilePath \<noteq> resolvConfPath"
  by (simp add: lastDNSFilePath_def resolvConfPath_def)

lemma saveLastDNS_writes_resolv:
  "writes_to resolvConfPath (trace (snd (saveLastDNS name w))) =
     writes_to resolvConfPath (trace w)"
  using paths_differ
  by (simp add: saveLastDNS_def os_MkdirAll_def os_WriteFile_def Let_def emit_simps
        writes_to_append split: option.split write_outcome.split)

lemma main_watch_ips_found:
  "DNS config domain = Some dnsIPs \<Longrightarrow> main_watch_ips config domain w = dnsIPs"
  by (simp add: main_watch_ips_def)

text \<open>
  With \<^verbatim>\<open>--set\<close>, a startup that reaches the watch loop hands it the list it wrote.
\<close>

lemma main_set_watch_args:
  assumes "readConfig yaml configPath w = Inr config"
    and "domain \<noteq> []"
    and "main yaml configPath domain w = CallsWatch ips w1"
  shows "DNS config domain = Some ips \<and>
         writes_to resolvConfPath (trace w1) =
           writes_to resolvConfPath (trace w) @ [setDNS_loop [] ips]"
proof (cases "DNS config domain")
  case None
  with assms show ?thesis
    by (simp add: main_def main_set_def log_Fatalf_def)
next
  case (Some dnsIPs)
  obtain r wa where s: "setDNS dnsIPs w = (r, wa)"
    by (cases "setDNS dnsIPs w")
  obtain r' wb where v: "saveLastDNS domain wa = (r', wb)"
    by (cases "saveLastDNS domain wa")
  from assms Some s v have r: "r = None" and r': "r' = None"
    by (cases r; cases r'; simp add: main_def main_set_def log_Fatalf_def)+
  from assms Some s v r r' have ips: "ips = dnsIPs"
    and w1: "w1 = log_Printf (''DNS set to '' @ fmt_v dnsIPs @ '' for domain ''
                               @ squote domain @ ''\<newline>'') wb"
    by (auto simp: main_def main_set_def main_watch_ips_found)
  have "writes_to resolvConfPath (trace wa) =
          writes_to resolvConfPath (trace w) @ [setDNS_loop [] dnsIPs]"
    using setDNS_trace [of dnsIPs w] s by (simp add: writes_to_append)
  moreover have "writes_to resolvConfPath (trace wb) = writes_to resolvConfPath (trace wa)"
    using saveLastDNS_writes_resolv [of domain wa] v by simp
  ultimately show ?thesis
    using Some ips w1 by (simp add: log_simps writes_to_append)
qed

lemma readLastDNS_cong:
  "files w' lastDNSFilePath = files w lastDNSFilePath \<Longrightarrow> on_read w' = on_read w \<Longrightarrow>
   readLastDNS w' = readLastDNS w"
  by (simp add: readLastDNS_def os_ReadFile_def split: option.split)

lemma main_restore_Inl:
  "main_restore config w = Inl r \<Longrightarrow> exit_code r = Some 1"
  by (auto simp: main_restore_def log_Fatalf_def case_prod_beta
        split: option.splits prod.splits)

lemma main_restore_keeps_record:
  assumes "main_restore config w = Inr w1"
  shows "readLastDNS w1 = readLastDNS w"
proof -
  obtain lastDNS w0 where l: "main_lastDNS w = (lastDNS, w0)"
    by (cases "main_lastDNS w")
  then have w0: "files w0 = files w" "on_read w0 = on_read w"
    using main_lastDNS_world(1,3) [of w] by simp_all
  from assms l obtain dnsIPs where d: "DNS config lastDNS = Some dnsIPs"
    by (cases "DNS config lastDNS") (simp_all add: main_restore_def)
  obtain r wa where s: "setDNS dnsIPs w0 = (r, wa)"
    by (cases "setDNS dnsIPs w0")
  with assms l d have r: "r = None"
    and w1: "w1 = log_Printf (''Restored last DNS: '' @ lastDNS @ ''\<newline>'') wa"
    by (cases r; simp add: main_restore_def)+
  from s r have "files wa = (files w0)(resolvConfPath \<mapsto> setDNS_loop [] dnsIPs)"
    using setDNS_files_ok [of dnsIPs w0] by simp
  moreover from s have "on_read wa = on_read w0"
    using setDNS_oracles(2) [of dnsIPs w0] by simp
  ultimately show ?thesis
    using w0 w1 paths_differ by (intro readLastDNS_cong) (simp_all add: log_simps)
qed

text \<open>
  Without \<^verbatim>\<open>--set\<close>, for a config without the empty name: a startup that reaches the
  watch loop hands it the addresses of the name that the record holds, which is the list
  it wrote when the record could be read and is not empty, and the nil list otherwise.
\<close>

lemma main_restore_watch_args:
  assumes "readConfig yaml configPath w = Inr config"
    and "DNS config [] = None"
    and "main yaml configPath [] w = CallsWatch ips w1"
  shows "ips = (case DNS config (fst (readLastDNS w)) of None \<Rightarrow> [] | Some dnsIPs \<Rightarrow> dnsIPs)"
proof -
  from assms(1,3) have r: "main_restore config w = Inr w1"
    and i: "ips = main_watch_ips config [] w1"
    by (auto simp: main_def split: sum.splits dest: main_restore_Inl)
  from main_restore_keeps_record [OF r] i assms(2) show ?thesis
    by (simp add: main_watch_ips_def case_prod_beta)
qed

lemma main_restore_default_watch_args:
  assumes "readConfig yaml configPath w = Inr config"
    and "DNS config [] = None"
    and "snd (readLastDNS w) \<noteq> None \<or> fst (readLastDNS w) = []"
    and "main yaml configPath [] w = CallsWatch ips w1"
  shows "ips = []"
proof -
  from assms(3) have "fst (readLastDNS w) = []"
    by (auto simp: readLastDNS_def split: sum.splits)
  with main_restore_watch_args [OF assms(1,2,4)] assms(2) show ?thesis
    by simp
qed

text \<open>
  C2, on the code: config \<^verbatim>\<open>{local: [127.0.0.1], cloudflare: [1.1.1.1, 1.0.0.1]}\<close>, no
  \<^verbatim>\<open>--set\<close>, no last-selection file. The startup writes the addresses of \<^verbatim>\<open>local\<close> to
  the resolver file and then calls \<^verbatim>\<open>watchResolvConf\<close> with the nil list: the second
  \<open>readLastDNS\<close> yields the empty name, which the config does not have, and the default
  \<^verbatim>\<open>local\<close> is not applied a second time.
\<close>

theorem main_default_watch_args_nil:
  "DNS sample_config ''local'' = Some [''127.0.0.1''] \<and>
   snd (readLastDNS sample_world) =
     Some (Error ''open /var/lib/dnsmng/last_dns: no such file or directory'') \<and>
   writes_to resolvConfPath
     (trace (final_world (main sample_yaml ''/etc/dnsmng/config.yaml'' [] sample_world))) =
     [''nameserver 127.0.0.1\<newline>''] \<and>
   files (final_world (main sample_yaml ''/etc/dnsmng/config.yaml'' [] sample_world))
     resolvConfPath = Some ''nameserver 127.0.0.1\<newline>'' \<and>
   watch_args (main sample_yaml ''/etc/dnsmng/config.yaml'' [] sample_world) = Some []"
  by (simp add: main_def readConfig_def os_ReadFile_def sample_world_def sample_yaml_def
        sample_config_def main_restore_def main_lastDNS_def readLastDNS_def
        lastDNSFilePath_def resolvConfPath_def log_Println_def log_Printf_def emit_def
        setDNS_def os_WriteFile_def main_watch_ips_def Sprintf_nameserver_def perm_0644_def)

section \<open>Properties of the watch loop\<close>

lemma watch_loop_Suc_return:
  "fst (watch_step (sched n) dnsIPs wt w) = Return \<Longrightarrow>
   watch_loop env sched n (Suc k) dnsIPs wt w = watch_step (sched n) dnsIPs wt w"
  by (cases "watch_step (sched n) dnsIPs wt w") (simp add: watch_loop.simps)

lemma watch_loop_Suc_alive:
  "fst (watch_step (sched n) dnsIPs wt w) \<noteq> Return \<Longrightarrow>
   watch_loop env sched n (Suc k) dnsIPs wt w =
     watch_loop env sched (Suc n) k dnsIPs
       (arrive (env n (snd (snd (watch_step (sched n) dnsIPs wt w))))
          (fst (snd (watch_step (sched n) dnsIPs wt w))))
       (snd (snd (watch_step (sched n) dnsIPs wt w)))"
  by (cases "watch_step (sched n) dnsIPs wt w") (simp add: watch_loop.simps)




lemma watch_step_write_event_eq:
  assumes "select pick wt = Some CaseEvents"
    and "buf (Events wt) = ev # evs"
    and "Op ev AND fsnotify_Write = fsnotify_Write"
  shows "watch_step pick dnsIPs wt w =
     (Continue, wt\<lparr>Events := (Events wt)\<lparr>buf := evs\<rparr>\<rparr>,
      (let w1 = log_Println ''Detected change in /etc/resolv.conf, restoring DNS settings'' w in
       case fst (setDNS dnsIPs w1) of
         None \<Rightarrow> snd (setDNS dnsIPs w1)
       | Some err \<Rightarrow>
           log_Printf (''Error restoring DNS: '' @ error_msg err @ ''\<newline>'')
             (snd (setDNS dnsIPs w1))))"
  using assms
  by (simp add: watch_step_def recv_def Let_def split: prod.split option.split)

lemma watch_step_write_event_trace:
  assumes "select pick wt = Some CaseEvents"
    and "buf (Events wt) = ev # evs"
    and "Op ev AND fsnotify_Write = fsnotify_Write"
  shows "trace (snd (snd (watch_step pick dnsIPs wt w))) =
      trace w @
        [LogLine ''Detected change in /etc/resolv.conf, restoring DNS settings\<newline>'',
         WriteFileCall resolvConfPath (setDNS_loop [] dnsIPs) perm_0644] @
        (case on_write w resolvConfPath of
           WriteOk \<Rightarrow> []
         | OpenFails err \<Rightarrow> [LogLine (''Error restoring DNS: '' @ error_msg err @ ''\<newline>'')]
         | WriteFails err m \<Rightarrow>
             [LogLine (''Error restoring DNS: '' @ error_msg err @ ''\<newline>'')])"
  by (simp add: watch_step_write_event_eq [OF assms] Let_def setDNS_def os_WriteFile_def
        resolvConfPath_def log_simps emit_simps split: write_outcome.split)


lemma watch_step_write_event_writes:
  assumes "select pick wt = Some CaseEvents"
    and "buf (Events wt) = ev # evs"
    and "Op ev AND fsnotify_Write = fsnotify_Write"
  shows "writes_to resolvConfPath (trace (snd (snd (watch_step pick dnsIPs wt w)))) =
      writes_to resolvConfPath (trace w) @ [setDNS_loop [] dnsIPs]"
  by (simp add: watch_step_write_event_trace [OF assms] writes_to_append
        split: write_outcome.split)

lemma watch_step_oracles:
  "on_write (snd (snd (watch_step pick dnsIPs wt w))) = on_write w"
  by (simp add: watch_step_def recv_def Let_def case_prod_beta log_simps setDNS_oracles
        split: option.split select_case.split list.split)


lemma sample_write_event:
  "Op write_event AND fsnotify_Write = fsnotify_Write"
  by (simp add: write_event_def)

text \<open>
  An environment that answers every successful restoring write with a \<^verbatim>\<open>Write\<close> event
  keeps the loop busy: started on one write event it never waits again, and \<open>k\<close>
  iterations are \<open>k\<close> restoring writes.
\<close>

lemma watch_loop_own_writes:
  assumes "on_write w resolvConfPath = WriteOk"
    and "Op ev AND fsnotify_Write = fsnotify_Write"
  shows "fst (watch_loop notify_own_write sched n k dnsIPs (idle_errors [ev]) w) = Continue \<and>
         writes_to resolvConfPath
           (trace (snd (snd (watch_loop notify_own_write sched n k dnsIPs (idle_errors [ev]) w)))) =
           writes_to resolvConfPath (trace w) @ replicate k (setDNS_loop [] dnsIPs)"
  using assms
proof (induction k arbitrary: n w ev)
  case 0
  show ?case
    by (simp add: watch_loop.simps)
next
  case (Suc k)
  let ?r = "watch_step (sched n) dnsIPs (idle_errors [ev]) w"
  have sel: "select (sched n) (idle_errors [ev]) = Some CaseEvents"
    by (simp add: select_def ready_def idle_errors_def)
  have bf: "buf (Events (idle_errors [ev])) = [ev]"
    by (simp add: idle_errors_def)
  note eq = watch_step_write_event_eq [OF sel bf Suc.prems(2), of dnsIPs w]
  have st: "fst ?r \<noteq> Return"
    using eq by simp
  have wt: "fst (snd ?r) = idle_errors []"
    using eq by (simp add: idle_errors_def)
  have tr: "trace (snd (snd ?r)) =
      trace w @
        [LogLine ''Detected change in /etc/resolv.conf, restoring DNS settings\<newline>'',
         WriteFileCall resolvConfPath (setDNS_loop [] dnsIPs) perm_0644]"
    using watch_step_write_event_trace [OF sel bf Suc.prems(2), of dnsIPs w] Suc.prems(1)
    by simp
  have ow: "on_write (snd (snd ?r)) resolvConfPath = WriteOk"
    using Suc.prems(1) by (simp add: watch_step_oracles)
  have nt: "notify_own_write n (snd (snd ?r)) = [NewEvent write_event]"
    by (simp add: notify_own_write_def tr)
  have ar: "arrive (notify_own_write n (snd (snd ?r))) (fst (snd ?r)) = idle_errors [write_event]"
    unfolding wt nt by (simp add: idle_errors_def)
  have "watch_loop notify_own_write sched n (Suc k) dnsIPs (idle_errors [ev]) w =
      watch_loop notify_own_write sched (Suc n) k dnsIPs (idle_errors [write_event]) (snd (snd ?r))"
    using watch_loop_Suc_alive [of sched n dnsIPs "idle_errors [ev]" w notify_own_write k] st ar
    by simp
  with Suc.IH [OF ow sample_write_event, of "Suc n"] show ?case
    by (simp add: tr writes_to_append replicate_append_same)
qed


lemma arrive_write_events:
  assumes "\<forall>a \<in> set as. \<exists>e. a = NewEvent e \<and> Op e AND fsnotify_Write = fsnotify_Write"
    and "\<forall>e \<in> set evs. Op e AND fsnotify_Write = fsnotify_Write"
  shows "\<exists>evs'. arrive as (idle_errors evs) = idle_errors evs' \<and>
           (\<forall>e \<in> set evs'. Op e AND fsnotify_Write = fsnotify_Write)"
  using assms
proof (induction as arbitrary: evs)
  case Nil
  then show ?case
    by auto
next
  case (Cons a as)
  then obtain e where a: "a = NewEvent e" and e: "Op e AND fsnotify_Write = fsnotify_Write"
    by auto
  have d: "deliver a (idle_errors evs) = idle_errors (evs @ [e])"
    by (simp add: a idle_errors_def)
  have "\<forall>e \<in> set (evs @ [e]). Op e AND fsnotify_Write = fsnotify_Write"
    using Cons.prems(2) e by auto
  with Cons.IH [of "evs @ [e]"] Cons.prems(1) d show ?case
    by simp
qed

text \<open>
  As long as the environment delivers write-class events only (no error, no closure), the
  goroutine never returns, whether its restoring writes fail or succeed, and everything it
  writes to the resolver file is the serialized address list.
\<close>

lemma watch_loop_write_events_only:
  assumes "\<forall>m w'. \<forall>a \<in> set (env m w'). \<exists>e. a = NewEvent e \<and> Op e AND fsnotify_Write = fsnotify_Write"
    and "\<forall>e \<in> set evs. Op e AND fsnotify_Write = fsnotify_Write"
  shows "fst (watch_loop env sched n k dnsIPs (idle_errors evs) w) = Continue \<and>
         (\<exists>j \<le> k. writes_to resolvConfPath
              (trace (snd (snd (watch_loop env sched n k dnsIPs (idle_errors evs) w)))) =
            writes_to resolvConfPath (trace w) @ replicate j (setDNS_loop [] dnsIPs))"
  using assms(2)
proof (induction k arbitrary: n evs w)
  case 0
  show ?case
    by (simp add: watch_loop.simps)
next
  case (Suc k)
  let ?r = "watch_step (sched n) dnsIPs (idle_errors evs) w"
  show ?case
  proof (cases evs)
    case Nil
    have r: "?r = (Blocked, idle_errors [], w)"
      by (simp add: Nil watch_step_def select_def ready_def idle_errors_def)
    obtain evs' where a: "arrive (env n w) (idle_errors []) = idle_errors evs'"
      and w: "\<forall>e \<in> set evs'. Op e AND fsnotify_Write = fsnotify_Write"
      using arrive_write_events [of "env n w" "[]"] assms(1) by auto
    have "watch_loop env sched n (Suc k) dnsIPs (idle_errors evs) w =
        watch_loop env sched (Suc n) k dnsIPs (idle_errors evs') w"
      using watch_loop_Suc_alive [of sched n dnsIPs "idle_errors evs" w env k] r a Nil by simp
    with Suc.IH [OF w, of "Suc n" w] show ?thesis
      by (auto intro: le_SucI)
  next
    case (Cons ev evs0)
    have sel: "select (sched n) (idle_errors evs) = Some CaseEvents"
      by (simp add: Cons select_def ready_def idle_errors_def)
    have bf: "buf (Events (idle_errors evs)) = ev # evs0"
      by (simp add: Cons idle_errors_def)
    have op: "Op ev AND fsnotify_Write = fsnotify_Write"
      using Suc.prems Cons by simp
    note eq = watch_step_write_event_eq [OF sel bf op, of dnsIPs w]
    have st: "fst ?r \<noteq> Return"
      using eq by simp
    have wt: "fst (snd ?r) = idle_errors evs0"
      using eq by (simp add: idle_errors_def)
    have wr: "writes_to resolvConfPath (trace (snd (snd ?r))) =
        writes_to resolvConfPath (trace w) @ [setDNS_loop [] dnsIPs]"
      by (rule watch_step_write_event_writes [OF sel bf op])
    have "\<forall>e \<in> set evs0. Op e AND fsnotify_Write = fsnotify_Write"
      using Suc.prems Cons by simp
    then obtain evs' where a: "arrive (env n (snd (snd ?r))) (idle_errors evs0) = idle_errors evs'"
      and w: "\<forall>e \<in> set evs'. Op e AND fsnotify_Write = fsnotify_Write"
      using arrive_write_events [of "env n (snd (snd ?r))" evs0] assms(1) by auto
    have u: "watch_loop env sched n (Suc k) dnsIPs (idle_errors evs) w =
        watch_loop env sched (Suc n) k dnsIPs (idle_errors evs') (snd (snd ?r))"
      using watch_loop_Suc_alive [of sched n dnsIPs "idle_errors evs" w env k] st wt a by simp
    from Suc.IH [OF w, of "Suc n" "snd (snd ?r)"] obtain j where j: "j \<le> k"
      and f: "fst (watch_loop env sched (Suc n) k dnsIPs (idle_errors evs') (snd (snd ?r))) = Continue"
      and t: "writes_to resolvConfPath
          (trace (snd (snd (watch_loop env sched (Suc n) k dnsIPs (idle_errors evs') (snd (snd ?r))))))
        = writes_to resolvConfPath (trace (snd (snd ?r))) @ replicate j (setDNS_loop [] dnsIPs)"
      by auto
    have "writes_to resolvConfPath
          (trace (snd (snd (watch_loop env sched n (Suc k) dnsIPs (idle_errors evs) w)))) =
        writes_to resolvConfPath (trace w) @ replicate (Suc j) (setDNS_loop [] dnsIPs)"
      by (simp add: u t wr)
    with j f u show ?thesis
      by (intro conjI exI [of _ "Suc j"]) simp_all
  qed
qed

lemma select_ready:
  "select pick wt = Some CaseEvents \<Longrightarrow> ready (Events wt)"
  "select pick wt = Some CaseErrors \<Longrightarrow> ready (Errors wt)"
  by (auto simp: select_def split: if_splits)

lemma watch_step_status:
  "fst (watch_step pick dnsIPs wt w) =
     (case select pick wt of
        None \<Rightarrow> Blocked
      | Some CaseEvents \<Rightarrow> if buf (Events wt) = [] then Return else Continue
      | Some CaseErrors \<Rightarrow> if buf (Errors wt) = [] then Return else Continue)"
  by (simp add: watch_step_def recv_def Let_def
        split: option.split select_case.split list.split prod.split)

lemma watch_step_return_state:
  "fst (watch_step pick dnsIPs wt w) = Return \<Longrightarrow>
   watch_step pick dnsIPs wt w = (Return, wt, w)"
  by (auto simp: watch_step_def recv_def Let_def
        split: option.splits select_case.splits list.splits prod.splits if_splits)

text \<open>
  C7, on the code: the error channel is closed, the event channel is open. The goroutine
  returns at the next \<^verbatim>\<open>select\<close>; with a write event waiting it returns as soon as
  \<^verbatim>\<open>select\<close> chooses the error case, and the event is never handled (no write, no log
  line).
\<close>

theorem watch_step_returns_while_events_open:
  "closed (Events (closed_errors [])) = False \<and>
   fst (watch_step CaseEvents [''127.0.0.1''] (closed_errors []) sample_world) = Return \<and>
   closed (Events (closed_errors [write_event])) = False \<and>
   watch_loop notify_own_write (\<lambda>n. CaseErrors) 0 (Suc (Suc (Suc 0))) [''127.0.0.1'']
       (closed_errors [write_event]) sample_world =
     (Return, closed_errors [write_event], sample_world)"
proof -
  have a: "watch_step CaseEvents [''127.0.0.1''] (closed_errors []) sample_world =
      (Return, closed_errors [], sample_world)"
    by (simp add: watch_step_def select_def ready_def recv_def closed_errors_def)
  have b: "watch_step CaseErrors [''127.0.0.1''] (closed_errors [write_event]) sample_world =
      (Return, closed_errors [write_event], sample_world)"
    by (simp add: watch_step_def select_def ready_def recv_def closed_errors_def)
  have c: "watch_loop notify_own_write (\<lambda>n. CaseErrors) 0 (Suc (Suc (Suc 0))) [''127.0.0.1'']
      (closed_errors [write_event]) sample_world =
      (Return, closed_errors [write_event], sample_world)"
    using watch_loop_Suc_return [of "\<lambda>n. CaseErrors" 0 "[''127.0.0.1'']"
        "closed_errors [write_event]" sample_world notify_own_write "Suc (Suc 0)"] b
    by simp
  from a c show ?thesis
    by (simp add: closed_errors_def)
qed

text \<open>
  C7, amended. An iteration returns exactly when the case chosen by \<^verbatim>\<open>select\<close> receives
  from a closed channel with nothing left in it, be it the event channel or the error
  channel. So at least one channel is closed when the goroutine returns, and when both are
  closed and empty it returns at once. When the chosen channel delivers a value the loop
  goes round.
\<close>

theorem watch_step_return_iff:
  "(fst (watch_step (sched n) dnsIPs wt w) = Return) =
     (select (sched n) wt = Some CaseEvents \<and> buf (Events wt) = [] \<and> closed (Events wt) \<or>
      select (sched n) wt = Some CaseErrors \<and> buf (Errors wt) = [] \<and> closed (Errors wt)) \<and>
   (fst (watch_step (sched n) dnsIPs wt w) = Return \<longrightarrow>
      (closed (Events wt) \<or> closed (Errors wt)) \<and>
      watch_loop env sched n (Suc k) dnsIPs wt w = (Return, wt, w)) \<and>
   (buf (Events wt) = [] \<and> closed (Events wt) \<and> buf (Errors wt) = [] \<and> closed (Errors wt) \<longrightarrow>
      fst (watch_step (sched n) dnsIPs wt w) = Return) \<and>
   (select (sched n) wt = Some CaseEvents \<and> buf (Events wt) \<noteq> [] \<or>
    select (sched n) wt = Some CaseErrors \<and> buf (Errors wt) \<noteq> [] \<longrightarrow>
      fst (watch_step (sched n) dnsIPs wt w) = Continue \<and>
      watch_loop env sched n (Suc k) dnsIPs wt w =
        watch_loop env sched (Suc n) k dnsIPs
          (arrive (env n (snd (snd (watch_step (sched n) dnsIPs wt w))))
             (fst (snd (watch_step (sched n) dnsIPs wt w))))
          (snd (snd (watch_step (sched n) dnsIPs wt w))))"
proof (intro conjI impI)
  show iff: "(fst (watch_step (sched n) dnsIPs wt w) = Return) =
     (select (sched n) wt = Some CaseEvents \<and> buf (Events wt) = [] \<and> closed (Events wt) \<or>
      select (sched n) wt = Some CaseErrors \<and> buf (Errors wt) = [] \<and> closed (Errors wt))"
    using select_ready [of "sched n" wt]
    by (auto simp: watch_step_status ready_def split: option.splits select_case.splits)
  {
    assume r: "fst (watch_step (sched n) dnsIPs wt w) = Return"
    with iff show "closed (Events wt) \<or> closed (Errors wt)"
      by blast
    from r have "watch_step (sched n) dnsIPs wt w = (Return, wt, w)"
      by (rule watch_step_return_state)
    with r show "watch_loop env sched n (Suc k) dnsIPs wt w = (Return, wt, w)"
      using watch_loop_Suc_return [of sched n dnsIPs wt w env k] by simp
  }
  {
    assume "buf (Events wt) = [] \<and> closed (Events wt) \<and> buf (Errors wt) = [] \<and> closed (Errors wt)"
    then show "fst (watch_step (sched n) dnsIPs wt w) = Return"
      by (cases "sched n") (simp_all add: watch_step_status select_def ready_def)
  }
  {
    assume "select (sched n) wt = Some CaseEvents \<and> buf (Events wt) \<noteq> [] \<or>
            select (sched n) wt = Some CaseErrors \<and> buf (Errors wt) \<noteq> []"
    then show c: "fst (watch_step (sched n) dnsIPs wt w) = Continue"
      by (auto simp: watch_step_status)
    then show "watch_loop env sched n (Suc k) dnsIPs wt w =
        watch_loop env sched (Suc n) k dnsIPs
          (arrive (env n (snd (snd (watch_step (sched n) dnsIPs wt w))))
             (fst (snd (watch_step (sched n) dnsIPs wt w))))
          (snd (snd (watch_step (sched n) dnsIPs wt w)))"
      using watch_loop_Suc_alive [of sched n dnsIPs wt w env k] by simp
  }
qed

theorem watch_step_return_iff_witness:
  "select ((\<lambda>n. CaseErrors) 0) (closed_errors [write_event]) = Some CaseErrors \<and>
   buf (Errors (closed_errors [write_event])) = [] \<and>
   closed (Errors (closed_errors [write_event])) = True \<and>
   closed (Events (closed_errors [write_event])) = False \<and>
   fst (watch_step CaseErrors [''127.0.0.1''] (closed_errors [write_event]) sample_world) = Return \<and>
   watch_loop notify_own_write (\<lambda>n. CaseErrors) 0 (Suc (Suc 0)) [''127.0.0.1'']
       (closed_errors [write_event]) sample_world =
     (Return, closed_errors [write_event], sample_world) \<and>
   select ((\<lambda>n. CaseEvents) 0) (closed_errors [write_event]) = Some CaseEvents \<and>
   buf (Events (closed_errors [write_event])) = [write_event] \<and>
   fst (watch_step CaseEvents [''127.0.0.1''] (closed_errors [write_event]) sample_world) =
     Continue \<and>
   buf (Events closed_both) = [] \<and> closed (Events closed_both) = True \<and>
   buf (Errors closed_both) = [] \<and> closed (Errors closed_both) = True \<and>
   fst (watch_step CaseEvents [''127.0.0.1''] closed_both sample_world) = Return \<and>
   watch_loop notify_own_write (\<lambda>n. CaseEvents) 0 (Suc (Suc 0)) [''127.0.0.1''] closed_both
       sample_world =
     (Return, closed_both, sample_world)"
proof -
  have s1: "select ((\<lambda>n. CaseErrors) 0) (closed_errors [write_event]) = Some CaseErrors"
    and s2: "select ((\<lambda>n. CaseEvents) 0) (closed_errors [write_event]) = Some CaseEvents"
    by (simp_all add: select_def ready_def closed_errors_def)
  have c: "buf (Errors (closed_errors [write_event])) = []"
    "closed (Errors (closed_errors [write_event])) = True"
    "closed (Events (closed_errors [write_event])) = False"
    "buf (Events (closed_errors [write_event])) = [write_event]"
    by (simp_all add: closed_errors_def)
  have b: "buf (Events closed_both) = []" "closed (Events closed_both) = True"
    "buf (Errors closed_both) = []" "closed (Errors closed_both) = True"
    by (simp_all add: closed_both_def)
  from watch_step_return_iff [where sched = "\<lambda>n. CaseErrors" and n = 0
         and dnsIPs = "[''127.0.0.1'']" and wt = "closed_errors [write_event]"
         and w = sample_world and env = notify_own_write and k = "Suc 0"]
       watch_step_return_iff [where sched = "\<lambda>n. CaseEvents" and n = 0
         and dnsIPs = "[''127.0.0.1'']" and wt = "closed_errors [write_event]"
         and w = sample_world and env = notify_own_write and k = "Suc 0"]
       watch_step_return_iff [where sched = "\<lambda>n. CaseEvents" and n = 0
         and dnsIPs = "[''127.0.0.1'']" and wt = closed_both
         and w = sample_world and env = notify_own_write and k = "Suc 0"]
       s1 s2 c b
  show ?thesis
    by simp
qed

section \<open>The default startup followed by an external write\<close>

text \<open>
  The sample machine without \<^verbatim>\<open>--set\<close> and without last-selection file: the startup
  writes the addresses of \<^verbatim>\<open>local\<close>, and at the first write event the loop, which was
  given the nil list, leaves the resolver file with zero bytes.
\<close>

lemma default_start_then_write_event:
  "files (final_world (main sample_yaml ''/etc/dnsmng/config.yaml'' [] sample_world))
     resolvConfPath = Some ''nameserver 127.0.0.1\<newline>'' \<and>
   files (snd (snd (watch_step CaseEvents
            (the (watch_args (main sample_yaml ''/etc/dnsmng/config.yaml'' [] sample_world)))
            (idle_errors [write_event])
            (final_world (main sample_yaml ''/etc/dnsmng/config.yaml'' [] sample_world)))))
     resolvConfPath = Some []"
  by (simp add: main_def readConfig_def os_ReadFile_def sample_world_def sample_yaml_def
        sample_config_def main_restore_def main_lastDNS_def readLastDNS_def
        lastDNSFilePath_def resolvConfPath_def log_Println_def log_Printf_def emit_def
        setDNS_def os_WriteFile_def main_watch_ips_def Sprintf_nameserver_def perm_0644_def
        watch_step_def select_def ready_def recv_def idle_errors_def write_event_def
        fsnotify_Write_def Let_def)

end
